theory Spec2Isabelle
  imports Main
begin

section \<open>JavaScript values and property bags\<close>

text \<open>
  The values that travel through the session: the options handed to an authenticator, the
  reasons a promise rejects with, and the values stored under the keys of a property bag.
  Numbers are kept to the integers; nothing in the session does arithmetic on them.
\<close>

datatype js_value =
    JUndefined
  | JNull
  | JBool bool
  | JNum int
  | JStr string
  | JObj "(string \<times> js_value) list"

text \<open>An object used as a property bag: its own enumerable properties, by key.\<close>

type_synonym bag = "string \<rightharpoonup> js_value"

text \<open>\<^verbatim>\<open>!!v\<close>: the falsy values are undefined, null, false, 0 and the empty string.\<close>

fun truthy :: "js_value \<Rightarrow> bool" where
  "truthy JUndefined = False"
| "truthy JNull = False"
| "truthy (JBool b) = b"
| "truthy (JNum n) = (n \<noteq> 0)"
| "truthy (JStr s) = (s \<noteq> [])"
| "truthy (JObj ps) = True"

text \<open>\<^verbatim>\<open>obj.key\<close>: reading a property that the object does not have gives undefined.\<close>

definition get_property :: "bag \<Rightarrow> string \<Rightarrow> js_value" where
  "get_property obj k = (case obj k of None \<Rightarrow> JUndefined | Some v \<Rightarrow> v)"

text \<open>\<^verbatim>\<open>delete obj.key\<close>.\<close>

definition delete_property :: "bag \<Rightarrow> string \<Rightarrow> bag" where
  "delete_property obj k = obj(k := None)"

text \<open>
  \<^verbatim>\<open>Ember.$.extend(target, source)\<close>, here \<open>extend_bag\<close> (jQuery, a library outside the repository): every
  property of \<open>source\<close> is copied onto \<open>target\<close>, replacing a property of the same name,
  except that a property whose value is undefined is not copied.
\<close>

definition extend_bag :: "bag \<Rightarrow> bag \<Rightarrow> bag" where
  "extend_bag target source =
     (\<lambda>k. case source k of
            None \<Rightarrow> target k
          | Some v \<Rightarrow> if v = JUndefined then target k else Some v)"

text \<open>The one key the session itself adds to a persisted record.\<close>

definition factory_key :: string where
  "factory_key = ''authenticatorFactory''"

section \<open>Promises\<close>

text \<open>
  What a promise settles with. A rejection carries a reason: a value passed to
  \<^verbatim>\<open>reject\<close>, or the error the engine raised (reading a property of undefined is a
  TypeError, calling an identifier bound in no enclosing scope is a ReferenceError).
  \<open>Pending\<close> is a promise that never settles.
\<close>

datatype reason = Value js_value | TypeError | ReferenceError

datatype 'a promise = Resolved 'a | Rejected reason | Pending

text \<open>
  \<^verbatim>\<open>new Ember.RSVP.Promise(function(resolve, reject) { ... })\<close> (RSVP, a library outside the
  repository): the function runs at once, with the two settling functions as its
  arguments. The first call of either settles the promise; an exception that leaves the
  function before that rejects the promise with the exception. The body is the sequence
  of settling calls and raises it makes.
\<close>

datatype 'a action = Resolve_with 'a | Reject_with js_value | Throw reason

fun run_resolver :: "'a action list \<Rightarrow> 'a promise" where
  "run_resolver [] = Pending"
| "run_resolver (Resolve_with v # rest) = Resolved v"
| "run_resolver (Reject_with e # rest) = Rejected (Value e)"
| "run_resolver (Throw r # rest) = Rejected r"

definition new_Promise ::
  "(('a \<Rightarrow> 'a action) \<Rightarrow> (js_value \<Rightarrow> 'a action) \<Rightarrow> 'a action list) \<Rightarrow> 'a promise" where
  "new_Promise resolver = run_resolver (resolver Resolve_with Reject_with)"

text \<open>Calling, with no argument, an identifier that no enclosing scope binds.\<close>

definition call_unbound :: "string \<Rightarrow> 'a action" where
  "call_unbound name = Throw ReferenceError"

definition is_rejected :: "'a promise \<Rightarrow> bool" where
  "is_rejected p = (case p of Rejected r \<Rightarrow> True | Resolved v \<Rightarrow> False | Pending \<Rightarrow> False)"

text \<open>
  The receiver (\<^verbatim>\<open>this\<close>) of a function. RSVP calls the callbacks given to
  \<^verbatim>\<open>then\<close> as plain functions, and session.js is strict code
  (\<^verbatim>\<open>'use strict'\<close> is its first line), so inside such a callback \<^verbatim>\<open>this\<close> is
  undefined; inside a method called on the session it is the session.
\<close>

datatype receiver = This_undefined | This_session

definition then_callback_receiver :: receiver where
  "then_callback_receiver = This_undefined"

section \<open>Authenticators\<close>

subsection \<open>The base authenticator (authenticators/base.js)\<close>

text \<open>
  \<^verbatim>\<open>restore: function(properties) {
    return new Ember.RSVP.Promise(function(resolve, reject) { reject(); }); }\<close>
\<close>

definition Base_restore :: "bag \<Rightarrow> bag promise" where
  "Base_restore properties = new_Promise (\<lambda>resolve reject. [reject JUndefined])"

text \<open>
  \<^verbatim>\<open>authenticate: function(options) {
    return new Ember.RSVP.Promise(function(resolve, reject) { reject(); }); }\<close>
\<close>

definition Base_authenticate :: "js_value \<Rightarrow> bag promise" where
  "Base_authenticate options = new_Promise (\<lambda>resolve reject. [reject JUndefined])"

text \<open>
  \<^verbatim>\<open>invalidate: function() {
    return new Ember.RSVP.Promise(function(resolve) { reject(); }); }\<close>

  The method declares no parameter (the session calls it with its content, which is
  ignored), and its resolver function declares \<^verbatim>\<open>resolve\<close> only: the
  \<^verbatim>\<open>reject\<close> it calls is bound nowhere.
\<close>

definition Base_invalidate :: "bag option \<Rightarrow> unit promise" where
  "Base_invalidate content_arg = new_Promise (\<lambda>resolve unused. [call_unbound ''reject''])"

subsection \<open>Authenticators in general, and the container\<close>

text \<open>
  Every authenticator extends the base and overrides its three methods; what each
  returned promise settles with is the authenticator's own business. By their contract
  \<open>restore\<close> and \<open>authenticate\<close> resolve with the properties of the session, an object.
\<close>

record authenticator =
  auth_restore :: "bag \<Rightarrow> bag promise"
  auth_authenticate :: "js_value \<Rightarrow> bag promise"
  auth_invalidate :: "bag option \<Rightarrow> unit promise"

definition Base :: authenticator where
  "Base = \<lparr>auth_restore = Base_restore, auth_authenticate = Base_authenticate,
            auth_invalidate = Base_invalidate\<rparr>"

text \<open>
  Ember's container (outside the repository) holds one instance per registered name.
  \<^verbatim>\<open>container.lookup(name)\<close> finds the instance registered under a string; for
  anything else there is nothing to find, and the method call made on the result of the
  lookup raises a TypeError. The instance is returned with its name, under which its
  event listeners are counted.
\<close>

type_synonym registry = "string \<rightharpoonup> authenticator"

definition container_lookup :: "registry \<Rightarrow> js_value \<Rightarrow> (string \<times> authenticator) option" where
  "container_lookup reg factory =
     (case factory of
        JStr name \<Rightarrow> (case reg name of None \<Rightarrow> None | Some a \<Rightarrow> Some (name, a))
      | _ \<Rightarrow> None)"

section \<open>The base authorizer (authorizers/base.js)\<close>

record 'session authorizer =
  authorizer_session :: "'session option"

text \<open>
  \<^verbatim>\<open>authorize: function(jqXHR, requestOptions) { }\<close>

  The result is the value returned (undefined, the body being empty), and the authorizer,
  the request and the options as the call leaves them.
\<close>

definition authorize ::
  "'session authorizer \<Rightarrow> 'xhr \<Rightarrow> 'opts \<Rightarrow> js_value \<times> 'session authorizer \<times> 'xhr \<times> 'opts" where
  "authorize self jqXHR requestOptions = (JUndefined, self, jqXHR, requestOptions)"

section \<open>The store\<close>

text \<open>
  The store is an object handed to the session (its \<^verbatim>\<open>store\<close> property); the
  session uses seven of its methods. Its state is the persisted properties and the
  advisory lock flag. So that the order of the session's calls can be stated, the store
  also keeps the list of the calls it has received, oldest first.
\<close>

datatype store_call =
    On | Restore | IsLocked | Lock | Clear | Persist bag | Unlock

record store =
  data :: bag
  locked :: bool
  calls :: "store_call list"

text \<open>
  Modelled from the spec: the Store capability set
  (\<^verbatim>\<open>restore() -> PersistedRecord\<close>, \<^verbatim>\<open>persist(record)\<close>, \<^verbatim>\<open>clear()\<close>,
  \<^verbatim>\<open>lock()\<close>, \<^verbatim>\<open>unlock()\<close>, \<^verbatim>\<open>isLocked() -> bool\<close> and the subscription to its
  change notification), no store implementation being among the sources. \<open>restore\<close>
  returns a copy of the properties, \<open>persist\<close> adds the given properties to those held,
  \<open>clear\<close> drops them all, and the lock is a flag.
\<close>

definition store_on :: "store \<Rightarrow> store" where
  "store_on st = st\<lparr>calls := calls st @ [On]\<rparr>"

definition store_restore :: "store \<Rightarrow> bag \<times> store" where
  "store_restore st = (data st, st\<lparr>calls := calls st @ [Restore]\<rparr>)"

definition store_isLocked :: "store \<Rightarrow> bool \<times> store" where
  "store_isLocked st = (locked st, st\<lparr>calls := calls st @ [IsLocked]\<rparr>)"

definition store_lock :: "store \<Rightarrow> store" where
  "store_lock st = st\<lparr>locked := True, calls := calls st @ [Lock]\<rparr>"

definition store_unlock :: "store \<Rightarrow> store" where
  "store_unlock st = st\<lparr>locked := False, calls := calls st @ [Unlock]\<rparr>"

definition store_clear :: "store \<Rightarrow> store" where
  "store_clear st = st\<lparr>data := Map.empty, calls := calls st @ [Clear]\<rparr>"

definition store_persist :: "bag \<Rightarrow> store \<Rightarrow> store" where
  "store_persist properties st =
     st\<lparr>data := data st ++ properties, calls := calls st @ [Persist properties]\<rparr>"

section \<open>The session (session.js)\<close>

text \<open>
  The session's own properties, the store it holds, and for every registered
  authenticator instance the number of \<^verbatim>\<open>'ember-simple-auth:session-updated'\<close>
  listeners bound on it. The listeners live on the authenticator instances; this session
  is the only one to bind and unbind them, and every one of them is the function of
  \<open>bindToAuthenticatorEvents\<close>.
  (\<^verbatim>\<open>attemptedTransition\<close> is declared and never used in the file, and is left out,
  as are the calls of \<^verbatim>\<open>Ember.Logger.debug\<close> and \<^verbatim>\<open>Ember.debug\<close>, which only log.)
\<close>

record session =
  isAuthenticated :: bool
  authenticatorFactory :: js_value
  content :: "bag option"
  store :: store
  listeners :: "string \<Rightarrow> nat"

text \<open>The property defaults of the class, around a given store.\<close>

definition create :: "store \<Rightarrow> session" where
  "create st =
     \<lparr>isAuthenticated = False, authenticatorFactory = JNull, content = None,
      store = st, listeners = (\<lambda>name. 0)\<rparr>"

text \<open>
  A synchronous method returns the session as it leaves it, and the exception it raised,
  if any: what was assigned before a raise stays assigned.
\<close>

type_synonym outcome = "reason option \<times> session"

text \<open>
  \<^verbatim>\<open>bindToAuthenticatorEvents\<close>:
  \<^verbatim>\<open>off(name)\<close> with the event's name alone removes every listener of that event from
  the instance, \<^verbatim>\<open>on\<close> adds one.
\<close>

definition bindToAuthenticatorEvents :: "registry \<Rightarrow> session \<Rightarrow> outcome" where
  "bindToAuthenticatorEvents reg s =
     (case container_lookup reg (authenticatorFactory s) of
        None \<Rightarrow> (Some TypeError, s)
      | Some (name, a) \<Rightarrow>
          (let s1 = s\<lparr>listeners := (listeners s)(name := 0)\<rparr>;
               s2 = s1\<lparr>listeners := (listeners s1)(name := Suc (listeners s1 name))\<rparr>
           in (None, s2)))"

text \<open>
  \<^verbatim>\<open>setup(authenticatorFactory, content)\<close>, here \<open>setup_session\<close>: the three
  properties are set in one \<^verbatim>\<open>setProperties\<close>, the listener is bound, the record to
  persist is built, and the store is written under the lock if nobody holds it.
\<close>

definition setup_session :: "registry \<Rightarrow> js_value \<Rightarrow> bag \<Rightarrow> session \<Rightarrow> outcome" where
  "setup_session reg factory new_content s =
     (let s1 = s\<lparr>isAuthenticated := True, authenticatorFactory := factory,
                  content := Some new_content\<rparr>
      in case bindToAuthenticatorEvents reg s1 of
           (Some e, s2) \<Rightarrow> (Some e, s2)
         | (None, s2) \<Rightarrow>
             (let record_data =
                    (case content s2 of
                       None \<Rightarrow> [factory_key \<mapsto> factory]
                     | Some c \<Rightarrow> extend_bag [factory_key \<mapsto> factory] c);
                  (is_locked, st1) = store_isLocked (store s2)
              in if \<not> is_locked
                 then (None, s2\<lparr>store :=
                         store_unlock (store_persist record_data (store_clear (store_lock st1)))\<rparr>)
                 else (None, s2\<lparr>store := st1\<rparr>)))"

text \<open>\<^verbatim>\<open>clear()\<close>: the three properties are reset, and the store is cleared if nobody holds the lock.\<close>

definition clear :: "session \<Rightarrow> session" where
  "clear s =
     (let s1 = s\<lparr>isAuthenticated := False, authenticatorFactory := JNull, content := None\<rparr>;
          (is_locked, st1) = store_isLocked (store s1)
      in if \<not> is_locked
         then s1\<lparr>store := store_clear st1\<rparr>
         else s1\<lparr>store := st1\<rparr>)"

text \<open>
  \<^verbatim>\<open>authenticate(authenticatorFactory, options)\<close>. The function given to the new
  promise looks the authenticator up and calls it (a failed lookup raises there, which
  rejects the promise); the two callbacks run when the authenticator's promise settles,
  and the method does nothing in between, so the call is taken together with the
  settling. The result is what the returned promise settles with, and the session then.
  A callback that raised before calling \<^verbatim>\<open>resolve\<close> would leave the returned
  promise pending.
\<close>

definition authenticate :: "registry \<Rightarrow> js_value \<Rightarrow> js_value \<Rightarrow> session \<Rightarrow> unit promise \<times> session" where
  "authenticate reg factory options s =
     (case container_lookup reg factory of
        None \<Rightarrow> (Rejected TypeError, s)
      | Some (name, a) \<Rightarrow>
          (case auth_authenticate a options of
             Resolved c \<Rightarrow>
               (case setup_session reg factory c s of
                  (None, s') \<Rightarrow> (Resolved (), s')
                | (Some e, s') \<Rightarrow> (Pending, s'))
           | Rejected error \<Rightarrow> (Rejected error, clear s)
           | Pending \<Rightarrow> (Pending, s)))"

text \<open>
  \<^verbatim>\<open>invalidate()\<close>. The authenticator is looked up once, from the session's current
  factory, and the same instance is unbound when its promise resolves.
\<close>

definition invalidate :: "registry \<Rightarrow> session \<Rightarrow> unit promise \<times> session" where
  "invalidate reg s =
     (case container_lookup reg (authenticatorFactory s) of
        None \<Rightarrow> (Rejected TypeError, s)
      | Some (name, a) \<Rightarrow>
          (case auth_invalidate a (content s) of
             Resolved u \<Rightarrow>
               (Resolved (), clear (s\<lparr>listeners := (listeners s)(name := 0)\<rparr>))
           | Rejected error \<Rightarrow> (Rejected error, s)
           | Pending \<Rightarrow> (Pending, s)))"

text \<open>
  An exception raised inside a callback given to \<^verbatim>\<open>then\<close> rejects the promise that
  \<^verbatim>\<open>then\<close> returned. The session keeps none of those promises, so the exception
  reaches no caller; what the callback assigned before raising stays assigned.
\<close>

definition in_then_callback :: "outcome \<Rightarrow> outcome" where
  "in_then_callback r = (None, snd r)"

text \<open>\<^verbatim>\<open>bindToStoreEvents\<close> subscribes the function below, \<open>store_session_updated\<close>.\<close>

definition bindToStoreEvents :: "session \<Rightarrow> session" where
  "bindToStoreEvents s = s\<lparr>store := store_on (store s)\<rparr>"

text \<open>
  The function \<open>bindToStoreEvents\<close> subscribes to the store's
  \<^verbatim>\<open>'ember-simple-auth:session-updated'\<close> event, run with the properties the store
  notifies. Here the callbacks use \<^verbatim>\<open>_this\<close>, the session.
\<close>

definition store_session_updated :: "registry \<Rightarrow> bag \<Rightarrow> session \<Rightarrow> outcome" where
  "store_session_updated reg notified s =
     (let factory = get_property notified factory_key
      in if truthy factory
         then (let remaining = delete_property notified factory_key
               in case container_lookup reg factory of
                    None \<Rightarrow> (Some TypeError, s)
                  | Some (name, a) \<Rightarrow>
                      (case auth_restore a remaining of
                         Resolved c \<Rightarrow> in_then_callback (setup_session reg factory c s)
                       | Rejected error \<Rightarrow> (None, clear s)
                       | Pending \<Rightarrow> (None, s)))
         else (None, clear s))"

text \<open>
  The rejection callback of \<open>init\<close>:
  \<^verbatim>\<open>function() { if (!this.store.isLocked()) { _this.store.clear(); } else { } }\<close>.
  Its condition reads the store through \<^verbatim>\<open>this\<close>, not through \<^verbatim>\<open>_this\<close>: with
  an undefined receiver, reading \<^verbatim>\<open>this.store\<close> raises a TypeError.
\<close>

definition init_restore_rejected :: "receiver \<Rightarrow> session \<Rightarrow> outcome" where
  "init_restore_rejected this s =
     (case this of
        This_undefined \<Rightarrow> (Some TypeError, s)
      | This_session \<Rightarrow>
          (let (is_locked, st1) = store_isLocked (store s)
           in if \<not> is_locked
              then (None, s\<lparr>store := store_clear st1\<rparr>)
              else (None, s\<lparr>store := st1\<rparr>)))"

text \<open>
  \<^verbatim>\<open>init()\<close>, run once when the session is created. The result holds the exception
  \<open>init\<close> itself raised, if any.
\<close>

definition init :: "registry \<Rightarrow> session \<Rightarrow> outcome" where
  "init reg s =
     (let s1 = bindToStoreEvents s;
          (restoredContent, st1) = store_restore (store s1);
          s2 = s1\<lparr>store := st1\<rparr>;
          factory = get_property restoredContent factory_key
      in if truthy factory
         then (let remaining = delete_property restoredContent factory_key
               in case container_lookup reg factory of
                    None \<Rightarrow> (Some TypeError, s2)
                  | Some (name, a) \<Rightarrow>
                      (case auth_restore a remaining of
                         Resolved c \<Rightarrow> in_then_callback (setup_session reg factory c s2)
                       | Rejected error \<Rightarrow>
                           in_then_callback (init_restore_rejected then_callback_receiver s2)
                       | Pending \<Rightarrow> (None, s2)))
         else (let (is_locked, st2) = store_isLocked (store s2)
               in if \<not> is_locked
                  then (None, s2\<lparr>store := store_clear st2\<rparr>)
                  else (None, s2\<lparr>store := st2\<rparr>)))"

text \<open>
  The listener \<open>bindToAuthenticatorEvents\<close> binds:
  \<^verbatim>\<open>function(content) { _this.setup(_this.authenticatorFactory, content); }\<close>.
  It reads the factory from the session when it runs.
\<close>

definition authenticator_session_updated :: "registry \<Rightarrow> bag \<Rightarrow> session \<Rightarrow> outcome" where
  "authenticator_session_updated reg c s = setup_session reg (authenticatorFactory s) c s"

text \<open>
  An authenticator instance triggering its event: the listeners bound on it run one after
  the other, as many as were bound when the event was triggered, until one raises.
\<close>

fun run_listeners :: "nat \<Rightarrow> registry \<Rightarrow> bag \<Rightarrow> session \<Rightarrow> outcome" where
  "run_listeners 0 reg c s = (None, s)"
| "run_listeners (Suc n) reg c s =
     (case authenticator_session_updated reg c s of
        (Some e, s') \<Rightarrow> (Some e, s')
      | (None, s') \<Rightarrow> run_listeners n reg c s')"

definition authenticator_trigger :: "registry \<Rightarrow> string \<Rightarrow> bag \<Rightarrow> session \<Rightarrow> outcome" where
  "authenticator_trigger reg name c s = run_listeners (listeners s name) reg c s"

subsection \<open>Sequences of events\<close>

text \<open>
  What can happen to a session once created: a call of \<open>authenticate\<close> or of
  \<open>invalidate\<close> (taken with the settling of the authenticator's promise), a
  notification of the store, and an authenticator instance triggering its event.
\<close>

datatype event =
    Authenticate js_value js_value
  | Invalidate
  | Store_updated bag
  | Authenticator_updated string bag

fun step :: "registry \<Rightarrow> session \<Rightarrow> event \<Rightarrow> session" where
  "step reg s (Authenticate factory options) = snd (authenticate reg factory options s)"
| "step reg s Invalidate = snd (invalidate reg s)"
| "step reg s (Store_updated notified) = snd (store_session_updated reg notified s)"
| "step reg s (Authenticator_updated name c) = snd (authenticator_trigger reg name c s)"

definition run :: "registry \<Rightarrow> session \<Rightarrow> event list \<Rightarrow> session" where
  "run reg s evs = foldl (step reg) s evs"

text \<open>A new session around a store: the defaults, then \<open>init\<close>.\<close>

definition new_session :: "registry \<Rightarrow> store \<Rightarrow> session" where
  "new_session reg st = snd (init reg (create st))"

text \<open>\<^verbatim>\<open>v != null\<close>: neither null nor undefined.\<close>

definition non_null :: "js_value \<Rightarrow> bool" where
  "non_null v = (v \<noteq> JNull \<and> v \<noteq> JUndefined)"

section \<open>Concrete authenticators, stores and sessions\<close>

text \<open>
  The inputs at which the theorems below are instantiated. \<open>example_pw\<close> accepts one
  set of credentials and resolves with a token, rejects every other with
  \<^verbatim>\<open>"bad-credentials"\<close>, forwards what it is asked to restore, and refuses to
  invalidate. \<open>example_fb\<close> always succeeds.
\<close>

definition good_credentials :: js_value where
  "good_credentials = JObj [(''user'', JStr ''a'')]"

definition example_pw :: authenticator where
  "example_pw =
     \<lparr>auth_restore = Resolved,
      auth_authenticate =
        (\<lambda>options. if options = good_credentials
                    then Resolved [''token'' \<mapsto> JStr ''T'']
                    else Rejected (Value (JStr ''bad-credentials''))),
      auth_invalidate = (\<lambda>c. Rejected (Value (JStr ''server-unreachable'')))\<rparr>"

definition example_fb :: authenticator where
  "example_fb =
     \<lparr>auth_restore = Resolved,
      auth_authenticate = (\<lambda>options. Resolved [''uid'' \<mapsto> JNum 7]),
      auth_invalidate = (\<lambda>c. Resolved ())\<rparr>"

text \<open>
  \<open>example_clash\<close> resolves with content that has a property of the session's own key;
  \<open>example_sparse\<close> resolves with content one of whose properties is undefined.
\<close>

definition example_clash :: authenticator where
  "example_clash =
     \<lparr>auth_restore = Resolved,
      auth_authenticate =
        (\<lambda>options. Resolved [factory_key \<mapsto> JStr ''fb'', ''token'' \<mapsto> JStr ''T'']),
      auth_invalidate = (\<lambda>c. Resolved ())\<rparr>"

definition example_sparse :: authenticator where
  "example_sparse =
     \<lparr>auth_restore = Resolved,
      auth_authenticate =
        (\<lambda>options. Resolved [''token'' \<mapsto> JStr ''T'', ''expires'' \<mapsto> JUndefined]),
      auth_invalidate = (\<lambda>c. Resolved ())\<rparr>"

definition example_registry :: registry where
  "example_registry =
     [''pw'' \<mapsto> example_pw, ''fb'' \<mapsto> example_fb, ''base'' \<mapsto> Base,
      ''clash'' \<mapsto> example_clash, ''sparse'' \<mapsto> example_sparse]"

definition empty_store :: store where
  "empty_store = \<lparr>data = Map.empty, locked = False, calls = []\<rparr>"

text \<open>A store left holding the record of a session of the base authenticator.\<close>

definition stale_store :: store where
  "stale_store =
     \<lparr>data = [factory_key \<mapsto> JStr ''base'', ''token'' \<mapsto> JStr ''T''], locked = False,
      calls = []\<rparr>"

text \<open>A session created on the empty store and then authenticated with \<open>example_pw\<close>.\<close>

definition signed_in :: session where
  "signed_in =
     snd (authenticate example_registry (JStr ''pw'') good_credentials
            (new_session example_registry empty_store))"

text \<open>The same session while another writer holds the store's lock.\<close>

definition locked_out :: session where
  "locked_out = signed_in\<lparr>store := store_lock (store signed_in)\<rparr>"

section \<open>The state the session keeps consistent\<close>

text \<open>
  Either the session is authenticated, its factory names a registered authenticator and
  it has content, or it is not authenticated and both are null.
\<close>

definition consistent :: "registry \<Rightarrow> session \<Rightarrow> bool" where
  "consistent reg s =
     (if isAuthenticated s
      then container_lookup reg (authenticatorFactory s) \<noteq> None \<and> content s \<noteq> None
      else authenticatorFactory s = JNull \<and> content s = None)"

text \<open>
  A sequence of events in which every notification of an authenticator arrives while the
  session is authenticated.
\<close>

fun notified_while_authenticated :: "registry \<Rightarrow> session \<Rightarrow> event list \<Rightarrow> bool" where
  "notified_while_authenticated reg s [] = True"
| "notified_while_authenticated reg s (ev # evs) =
     ((case ev of Authenticator_updated name c \<Rightarrow> isAuthenticated s | _ \<Rightarrow> True)
      \<and> notified_while_authenticated reg (step reg s ev) evs)"

section \<open>Properties\<close>

lemmas store_defs = store_on_def store_restore_def store_isLocked_def store_clear_def
  store_lock_def store_unlock_def store_persist_def

lemmas session_defs = new_session_def init_def create_def bindToStoreEvents_def
  get_property_def factory_key_def delete_property_def container_lookup_def clear_def
  setup_session_def bindToAuthenticatorEvents_def extend_bag_def authenticate_def
  invalidate_def store_session_updated_def in_then_callback_def init_restore_rejected_def
  then_callback_receiver_def authenticator_session_updated_def authenticator_trigger_def
  run_def

lemmas example_defs = example_registry_def example_pw_def example_fb_def example_clash_def
  example_sparse_def empty_store_def good_credentials_def signed_in_def

subsection \<open>The base authenticator and the base authorizer\<close>

lemma Base_rejection_reasons:
  "Base_restore properties = Rejected (Value JUndefined)"
  "Base_authenticate options = Rejected (Value JUndefined)"
  "Base_invalidate c = Rejected ReferenceError"
  by (simp_all add: Base_restore_def Base_authenticate_def Base_invalidate_def
      new_Promise_def call_unbound_def)

text \<open>
  C9. Whatever they are given, the three methods of the base authenticator return a
  promise that rejects. (\<open>restore\<close> and \<open>authenticate\<close> reject by calling
  \<^verbatim>\<open>reject()\<close>; \<open>invalidate\<close> rejects because calling the unbound \<^verbatim>\<open>reject\<close>
  raises inside the function given to the promise, see \<open>Base_rejection_reasons\<close>.)
\<close>

theorem Base_always_rejects:
  "is_rejected (Base_restore properties) \<and> is_rejected (Base_authenticate options)
   \<and> is_rejected (Base_invalidate c)"
  by (simp add: Base_rejection_reasons is_rejected_def)

text \<open>
  C10. The base authorizer's \<open>authorize\<close> returns undefined and leaves the authorizer,
  the request and the options as they were; what it returns is the same whatever session
  the authorizer holds.
\<close>

theorem authorize_is_noop:
  "authorize self jqXHR requestOptions = (JUndefined, self, jqXHR, requestOptions)
   \<and> fst (authorize other jqXHR requestOptions) = fst (authorize self jqXHR requestOptions)"
  by (simp add: authorize_def)

subsection \<open>What \<open>clear\<close> and \<open>setup_session\<close> do to the session and to the store\<close>

lemma clear_fields:
  "\<not> isAuthenticated (clear s)" "authenticatorFactory (clear s) = JNull"
  "content (clear s) = None" "listeners (clear s) = listeners s"
  by (simp_all add: clear_def store_defs Let_def)

lemma clear_store_locked:
  "locked (store s) \<Longrightarrow> store (clear s) = (store s)\<lparr>calls := calls (store s) @ [IsLocked]\<rparr>"
  by (simp add: clear_def store_defs Let_def)

lemma clear_store_unlocked:
  "\<not> locked (store s) \<Longrightarrow>
     store (clear s) = (store s)\<lparr>data := Map.empty, calls := calls (store s) @ [IsLocked, Clear]\<rparr>"
  by (simp add: clear_def store_defs Let_def)

lemma setup_session_found:
  assumes "container_lookup reg factory = Some (name, a)"
  shows "setup_session reg factory c s =
     (None, s\<lparr>isAuthenticated := True, authenticatorFactory := factory, content := Some c,
              listeners := (listeners s)(name := 1),
              store := (if locked (store s)
                        then (store s)\<lparr>calls := calls (store s) @ [IsLocked]\<rparr>
                        else (store s)\<lparr>data := extend_bag [factory_key \<mapsto> factory] c,
                               locked := False,
                               calls := calls (store s) @ [IsLocked, Lock, Clear,
                                  Persist (extend_bag [factory_key \<mapsto> factory] c), Unlock]\<rparr>)\<rparr>)"
  using assms
  by (simp add: setup_session_def bindToAuthenticatorEvents_def store_defs Let_def)

lemma setup_session_not_found:
  assumes "container_lookup reg factory = None"
  shows "setup_session reg factory c s =
     (Some TypeError,
      s\<lparr>isAuthenticated := True, authenticatorFactory := factory, content := Some c\<rparr>)"
  using assms
  by (simp add: setup_session_def bindToAuthenticatorEvents_def Let_def)

lemma signed_in_fields:
  "isAuthenticated signed_in" "authenticatorFactory signed_in = JStr ''pw''"
  "content signed_in = Some [''token'' \<mapsto> JStr ''T'']"
  "locked (store signed_in) = False"
  by (simp_all add: session_defs store_defs example_defs Let_def)

lemma locked_out_locked: "locked (store locked_out)"
  by (simp add: locked_out_def store_lock_def)

text \<open>
  C2, as the code has it. Both writes ask \<open>isLocked\<close> first, and while the lock is held
  neither calls anything else: the store's properties stay as they were. With the lock
  free, \<open>setup_session\<close> calls \<open>lock\<close>, \<open>clear\<close>, \<open>persist\<close> with the record (the
  content extended over the factory) and \<open>unlock\<close>, in this order, and leaves the store
  unlocked; \<open>clear\<close> calls the store's \<open>clear\<close> alone, with no \<open>lock\<close> before it and
  no \<open>unlock\<close> after it. (When the factory names no registered authenticator,
  \<open>setup_session\<close> raises before it reaches the store.) Each is one function
  application: nothing runs between its calls.
\<close>

theorem store_writes_are_guarded:
  "(if locked (store s)
    then calls (store (clear s)) = calls (store s) @ [IsLocked]
         \<and> data (store (clear s)) = data (store s)
    else calls (store (clear s)) = calls (store s) @ [IsLocked, Clear]
         \<and> data (store (clear s)) = Map.empty)
   \<and> (case container_lookup reg factory of
         None \<Rightarrow> store (snd (setup_session reg factory c s)) = store s
       | Some found \<Rightarrow>
          (if locked (store s)
           then calls (store (snd (setup_session reg factory c s))) = calls (store s) @ [IsLocked]
                \<and> data (store (snd (setup_session reg factory c s))) = data (store s)
           else calls (store (snd (setup_session reg factory c s)))
                  = calls (store s) @ [IsLocked, Lock, Clear,
                       Persist (extend_bag [factory_key \<mapsto> factory] c), Unlock]
                \<and> data (store (snd (setup_session reg factory c s)))
                  = extend_bag [factory_key \<mapsto> factory] c
                \<and> \<not> locked (store (snd (setup_session reg factory c s)))))"
proof -
  have "case container_lookup reg factory of
         None \<Rightarrow> store (snd (setup_session reg factory c s)) = store s
       | Some found \<Rightarrow>
          (if locked (store s)
           then calls (store (snd (setup_session reg factory c s))) = calls (store s) @ [IsLocked]
                \<and> data (store (snd (setup_session reg factory c s))) = data (store s)
           else calls (store (snd (setup_session reg factory c s)))
                  = calls (store s) @ [IsLocked, Lock, Clear,
                       Persist (extend_bag [factory_key \<mapsto> factory] c), Unlock]
                \<and> data (store (snd (setup_session reg factory c s)))
                  = extend_bag [factory_key \<mapsto> factory] c
                \<and> \<not> locked (store (snd (setup_session reg factory c s))))"
  proof (cases "container_lookup reg factory")
    case None
    then show ?thesis by (simp add: setup_session_not_found)
  next
    case (Some found)
    then show ?thesis by (cases found) (simp add: setup_session_found)
  qed
  then show ?thesis
    by (simp add: clear_store_locked clear_store_unlocked)
qed

text \<open>
  The theorem at a session the other writer has locked out, and at the same session with
  the lock free.
\<close>

theorem store_writes_are_guarded_witness:
  "\<not> locked (store signed_in) \<and> locked (store locked_out)
   \<and> calls (store (clear signed_in)) = calls (store signed_in) @ [IsLocked, Clear]
   \<and> calls (store (clear locked_out)) = calls (store locked_out) @ [IsLocked]
   \<and> data (store (clear locked_out)) = data (store locked_out)
   \<and> calls (store (snd (setup_session example_registry (JStr ''fb'') [''uid'' \<mapsto> JNum 7]
          signed_in)))
       = calls (store signed_in) @ [IsLocked, Lock, Clear,
           Persist (extend_bag [factory_key \<mapsto> JStr ''fb''] [''uid'' \<mapsto> JNum 7]), Unlock]
   \<and> calls (store (snd (setup_session example_registry (JStr ''fb'') [''uid'' \<mapsto> JNum 7]
          locked_out)))
       = calls (store locked_out) @ [IsLocked]
   \<and> data (store (snd (setup_session example_registry (JStr ''fb'') [''uid'' \<mapsto> JNum 7]
          locked_out)))
       = data (store locked_out)"
proof -
  have u: "\<not> locked (store signed_in)"
    by (simp add: signed_in_fields)
  have l: "locked (store locked_out)"
    by (rule locked_out_locked)
  have f: "container_lookup example_registry (JStr ''fb'') = Some (''fb'', example_fb)"
    by (simp add: container_lookup_def example_registry_def)
  from store_writes_are_guarded [where s = signed_in and reg = example_registry
      and factory = "JStr ''fb''" and c = "[''uid'' \<mapsto> JNum 7]"]
    store_writes_are_guarded [where s = locked_out and reg = example_registry
      and factory = "JStr ''fb''" and c = "[''uid'' \<mapsto> JNum 7]"]
    u l f
  show ?thesis
    by simp
qed

text \<open>
  C2 as the specification states it has \<open>clear\<close> take the lock around its write. It does not:
  with the lock free, the calls \<open>clear\<close> makes are \<open>isLocked\<close> and \<open>clear\<close>, and that
  is not the sequence with \<open>lock\<close> and \<open>unlock\<close> around the write.
\<close>

theorem clear_takes_no_lock:
  "\<not> locked (store signed_in)
   \<and> calls (store (clear signed_in)) = calls (store signed_in) @ [IsLocked, Clear]
   \<and> calls (store (clear signed_in)) \<noteq> calls (store signed_in) @ [IsLocked, Lock, Clear, Unlock]"
  by (simp add: signed_in_fields clear_store_unlocked)

subsection \<open>Rejections of \<open>authenticate\<close> and \<open>invalidate\<close>\<close>

text \<open>
  C4. When the session is authenticated and its authenticator's \<open>invalidate\<close> rejects
  with \<open>E\<close>, the promise \<open>invalidate\<close> returns rejects with \<open>E\<close> and the session is
  what it was: still authenticated, with the same factory, content and listeners, and a
  store that received no call.
\<close>

theorem invalidate_rejected_unchanged:
  assumes "isAuthenticated s"
    and "container_lookup reg (authenticatorFactory s) = Some (name, a)"
    and "auth_invalidate a (content s) = Rejected E"
  shows "invalidate reg s = (Rejected E, s)
     \<and> isAuthenticated (snd (invalidate reg s))
     \<and> store (snd (invalidate reg s)) = store s"
  using assms by (simp add: invalidate_def)

theorem invalidate_rejected_unchanged_witness:
  "isAuthenticated signed_in
   \<and> container_lookup example_registry (authenticatorFactory signed_in)
       = Some (''pw'', example_pw)
   \<and> auth_invalidate example_pw (content signed_in)
       = Rejected (Value (JStr ''server-unreachable''))
   \<and> invalidate example_registry signed_in
       = (Rejected (Value (JStr ''server-unreachable'')), signed_in)
   \<and> isAuthenticated (snd (invalidate example_registry signed_in))
   \<and> store (snd (invalidate example_registry signed_in)) = store signed_in"
proof -
  have h1: "isAuthenticated signed_in"
    by (rule signed_in_fields)
  have h2: "container_lookup example_registry (authenticatorFactory signed_in)
              = Some (''pw'', example_pw)"
    by (simp add: signed_in_fields container_lookup_def example_registry_def)
  have h3: "auth_invalidate example_pw (content signed_in)
              = Rejected (Value (JStr ''server-unreachable''))"
    by (simp add: example_pw_def)
  from invalidate_rejected_unchanged [OF h1 h2 h3] h1 h2 h3 show ?thesis
    by blast
qed

text \<open>
  C5. When the authenticator chosen for \<open>authenticate\<close> rejects with \<open>E\<close>, the session
  runs \<open>clear\<close>, which leaves it unauthenticated with factory and content null, and the
  promise \<open>authenticate\<close> returns rejects with the same \<open>E\<close>.
\<close>

theorem authenticate_rejected_clears:
  assumes "container_lookup reg factory = Some (name, a)"
    and "auth_authenticate a options = Rejected E"
  shows "authenticate reg factory options s = (Rejected E, clear s)
     \<and> \<not> isAuthenticated (clear s) \<and> authenticatorFactory (clear s) = JNull
     \<and> content (clear s) = None"
  using assms by (simp add: authenticate_def clear_fields)

theorem authenticate_rejected_clears_witness:
  "container_lookup example_registry (JStr ''pw'') = Some (''pw'', example_pw)
   \<and> auth_authenticate example_pw (JStr ''guess'') = Rejected (Value (JStr ''bad-credentials''))
   \<and> authenticate example_registry (JStr ''pw'') (JStr ''guess'') signed_in
        = (Rejected (Value (JStr ''bad-credentials'')), clear signed_in)
   \<and> \<not> isAuthenticated (clear signed_in) \<and> authenticatorFactory (clear signed_in) = JNull
   \<and> content (clear signed_in) = None"
proof -
  have h1: "container_lookup example_registry (JStr ''pw'') = Some (''pw'', example_pw)"
    by (simp add: container_lookup_def example_registry_def)
  have h2: "auth_authenticate example_pw (JStr ''guess'')
              = Rejected (Value (JStr ''bad-credentials''))"
    by (simp add: example_pw_def good_credentials_def)
  from authenticate_rejected_clears [OF h1 h2, of signed_in] h1 h2 show ?thesis
    by blast
qed

subsection \<open>Notifications of the store\<close>

lemma store_session_updated_falsy:
  "\<not> truthy (get_property notified factory_key) \<Longrightarrow>
     store_session_updated reg notified s = (None, clear s)"
  by (simp add: store_session_updated_def)

lemma store_session_updated_restore_rejected:
  assumes "container_lookup reg (get_property notified factory_key) = Some (name, a)"
    and "auth_restore a (delete_property notified factory_key) = Rejected E"
  shows "store_session_updated reg notified s = (None, clear s)"
  using assms by (simp add: store_session_updated_def Let_def)

text \<open>
  C7. When the store notifies properties that carry no factory (or a falsy one), or one
  whose authenticator rejects the restore, the session runs \<open>clear\<close> whether or not the
  lock is held: it ends unauthenticated with factory and content null; with the lock free
  the store's \<open>clear\<close> is called and its properties are dropped, with the lock held the
  store is only asked \<open>isLocked\<close>.
\<close>

theorem store_update_without_authenticator_clears:
  assumes "\<not> truthy (get_property notified factory_key)
           \<or> (\<exists>name a E.
                 container_lookup reg (get_property notified factory_key) = Some (name, a)
                 \<and> auth_restore a (delete_property notified factory_key) = Rejected E)"
  shows "store_session_updated reg notified s = (None, clear s)
     \<and> \<not> isAuthenticated (clear s) \<and> authenticatorFactory (clear s) = JNull
     \<and> content (clear s) = None
     \<and> (if locked (store s)
         then calls (store (clear s)) = calls (store s) @ [IsLocked]
              \<and> data (store (clear s)) = data (store s)
         else calls (store (clear s)) = calls (store s) @ [IsLocked, Clear]
              \<and> data (store (clear s)) = Map.empty)"
proof -
  from assms have "store_session_updated reg notified s = (None, clear s)"
    by (auto simp: store_session_updated_falsy store_session_updated_restore_rejected)
  then show ?thesis
    by (simp add: clear_fields clear_store_locked clear_store_unlocked)
qed

text \<open>
  The theorem at the signed-in session with the lock free, notified of an empty record, and
  notified of a record of the base authenticator, which rejects the restore.
\<close>

theorem store_update_without_authenticator_clears_witness:
  "\<not> truthy (get_property Map.empty factory_key)
   \<and> container_lookup example_registry (get_property (data stale_store) factory_key)
       = Some (''base'', Base)
   \<and> auth_restore Base (delete_property (data stale_store) factory_key)
       = Rejected (Value JUndefined)
   \<and> isAuthenticated signed_in \<and> \<not> locked (store signed_in)
   \<and> store_session_updated example_registry Map.empty signed_in = (None, clear signed_in)
   \<and> store_session_updated example_registry (data stale_store) signed_in
       = (None, clear signed_in)
   \<and> \<not> isAuthenticated (clear signed_in) \<and> authenticatorFactory (clear signed_in) = JNull
   \<and> content (clear signed_in) = None
   \<and> calls (store (clear signed_in)) = calls (store signed_in) @ [IsLocked, Clear]
   \<and> data (store (clear signed_in)) = Map.empty"
proof -
  have h: "\<not> truthy (get_property Map.empty factory_key)"
    by (simp add: get_property_def)
  have f: "container_lookup example_registry (get_property (data stale_store) factory_key)
             = Some (''base'', Base)"
    by (simp add: stale_store_def get_property_def container_lookup_def example_registry_def
        factory_key_def)
  have r: "auth_restore Base (delete_property (data stale_store) factory_key)
             = Rejected (Value JUndefined)"
    by (simp add: Base_def Base_rejection_reasons)
  have u: "\<not> locked (store signed_in)"
    by (simp add: signed_in_fields)
  have "\<not> truthy (get_property (data stale_store) factory_key)
        \<or> (\<exists>name a E.
              container_lookup example_registry (get_property (data stale_store) factory_key)
                = Some (name, a)
              \<and> auth_restore a (delete_property (data stale_store) factory_key) = Rejected E)"
    using f r by blast
  from store_update_without_authenticator_clears [of Map.empty example_registry signed_in]
    store_update_without_authenticator_clears [OF this, of signed_in] h f r u
  show ?thesis
    by (simp add: signed_in_fields)
qed

subsection \<open>From \<open>authenticate\<close> to the store and back into a new session\<close>

lemma extend_bag_fresh:
  assumes "C factory_key = None" and "JUndefined \<notin> ran C"
  shows "extend_bag [factory_key \<mapsto> v] C = C(factory_key \<mapsto> v)"
proof
  fix k
  show "extend_bag [factory_key \<mapsto> v] C k = (C(factory_key \<mapsto> v)) k"
  proof (cases "C k")
    case None
    then show ?thesis by (simp add: extend_bag_def)
  next
    case (Some w)
    with assms have "w \<noteq> JUndefined" "k \<noteq> factory_key"
      by (auto simp: ran_def)
    with Some show ?thesis by (simp add: extend_bag_def)
  qed
qed

lemma authenticate_resolved:
  assumes "container_lookup reg factory = Some (name, a)"
    and "auth_authenticate a options = Resolved C"
  shows "authenticate reg factory options s = (Resolved (), snd (setup_session reg factory C s))"
  using assms by (simp add: authenticate_def setup_session_found)

lemma init_restored:
  assumes "truthy (get_property (data st) factory_key)"
    and "container_lookup reg (get_property (data st) factory_key) = Some (name, a)"
    and "auth_restore a (delete_property (data st) factory_key) = Resolved C"
  shows "new_session reg st =
     snd (setup_session reg (get_property (data st) factory_key) C
            (create (st\<lparr>calls := calls st @ [On, Restore]\<rparr>)))"
  using assms
  by (simp add: new_session_def init_def bindToStoreEvents_def store_defs create_def Let_def
      in_then_callback_def)

text \<open>
  C8, as the code has it. Let \<open>authenticate\<close> be called with a non-empty registered name
  while the store's lock is free, and let the authenticator resolve with content \<open>C\<close>
  that has no property of the session's own key and no undefined property. Then the
  returned promise resolves, the store holds \<open>C\<close> with the name added under that key,
  and deleting the key from what the store holds gives \<open>C\<close> again. A new session created
  on that store, whose authenticator's \<open>restore\<close> forwards \<open>C\<close>, is authenticated, with
  the name as its factory and \<open>C\<close> as its content.
\<close>

theorem persisted_session_round_trip:
  assumes "reg name = Some a" and "name \<noteq> []"
    and "auth_authenticate a options = Resolved C"
    and "auth_restore a C = Resolved C"
    and "\<not> locked (store s)"
    and "C factory_key = None" and "JUndefined \<notin> ran C"
  shows "fst (authenticate reg (JStr name) options s) = Resolved ()
     \<and> data (store (snd (authenticate reg (JStr name) options s))) = C(factory_key \<mapsto> JStr name)
     \<and> delete_property (data (store (snd (authenticate reg (JStr name) options s)))) factory_key = C
     \<and> isAuthenticated (new_session reg (store (snd (authenticate reg (JStr name) options s))))
     \<and> authenticatorFactory (new_session reg (store (snd (authenticate reg (JStr name) options s))))
         = JStr name
     \<and> content (new_session reg (store (snd (authenticate reg (JStr name) options s)))) = Some C"
proof -
  let ?s' = "snd (authenticate reg (JStr name) options s)"
  have found: "container_lookup reg (JStr name) = Some (name, a)"
    using assms(1) by (simp add: container_lookup_def)
  have auth: "authenticate reg (JStr name) options s
                = (Resolved (), snd (setup_session reg (JStr name) C s))"
    using found assms(3) by (rule authenticate_resolved)
  have persisted: "data (store ?s') = C(factory_key \<mapsto> JStr name)"
    using assms(5)
    by (simp add: auth setup_session_found [OF found] extend_bag_fresh [OF assms(6,7)])
  have stripped: "delete_property (data (store ?s')) factory_key = C"
    using assms(6) by (simp add: persisted delete_property_def fun_upd_idem)
  have read: "get_property (data (store ?s')) factory_key = JStr name"
    by (simp add: persisted get_property_def)
  have "new_session reg (store ?s') =
     snd (setup_session reg (JStr name) C
            (create ((store ?s')\<lparr>calls := calls (store ?s') @ [On, Restore]\<rparr>)))"
    using init_restored [of "store ?s'" reg name a C] assms(2,4) found
    by (simp add: read stripped)
  then have "isAuthenticated (new_session reg (store ?s'))
      \<and> authenticatorFactory (new_session reg (store ?s')) = JStr name
      \<and> content (new_session reg (store ?s')) = Some C"
    by (simp add: setup_session_found [OF found])
  with auth persisted stripped show ?thesis
    by simp
qed

text \<open>The theorem at \<open>example_pw\<close>, signing in on a new session over the empty store.\<close>

theorem persisted_session_round_trip_witness:
  "example_registry ''pw'' = Some example_pw \<and> ''pw'' \<noteq> []
   \<and> auth_authenticate example_pw good_credentials = Resolved [''token'' \<mapsto> JStr ''T'']
   \<and> auth_restore example_pw [''token'' \<mapsto> JStr ''T''] = Resolved [''token'' \<mapsto> JStr ''T'']
   \<and> \<not> locked (store (new_session example_registry empty_store))
   \<and> [''token'' \<mapsto> JStr ''T''] factory_key = None
   \<and> JUndefined \<notin> ran [''token'' \<mapsto> JStr ''T'']
   \<and> data (store signed_in) = [''token'' \<mapsto> JStr ''T'', factory_key \<mapsto> JStr ''pw'']
   \<and> isAuthenticated (new_session example_registry (store signed_in))
   \<and> authenticatorFactory (new_session example_registry (store signed_in)) = JStr ''pw''
   \<and> content (new_session example_registry (store signed_in)) = Some [''token'' \<mapsto> JStr ''T'']"
proof -
  have h1: "example_registry ''pw'' = Some example_pw"
    by (simp add: example_registry_def)
  have h2: "''pw'' \<noteq> []"
    by simp
  have h3: "auth_authenticate example_pw good_credentials = Resolved [''token'' \<mapsto> JStr ''T'']"
    by (simp add: example_pw_def)
  have h4: "auth_restore example_pw [''token'' \<mapsto> JStr ''T'']
              = Resolved [''token'' \<mapsto> JStr ''T'']"
    by (simp add: example_pw_def)
  have h5: "\<not> locked (store (new_session example_registry empty_store))"
    by (simp add: session_defs store_defs empty_store_def Let_def)
  have h6: "[''token'' \<mapsto> JStr ''T''] factory_key = None"
    by (simp add: factory_key_def)
  have h7: "JUndefined \<notin> ran [''token'' \<mapsto> JStr ''T'']"
    by simp
  from persisted_session_round_trip [of example_registry "''pw''" example_pw good_credentials
      "[''token'' \<mapsto> JStr ''T'']" "new_session example_registry empty_store",
      OF h1 h2 h3 h4 h5 h6 h7] h1 h2 h3 h4 h5 h6 h7
  show ?thesis
    unfolding signed_in_def by blast
qed

text \<open>
  C8 as the specification states it, for every name and every content, fails in four ways, each
  with an authenticator whose \<open>restore\<close> forwards its argument and an \<open>authenticate\<close>
  that resolved. With the lock held nothing is persisted, and the new session has no
  content. Content with a property of the session's own key (\<open>example_clash\<close>) replaces
  the name in the record, and the new session's factory is that property's value. An
  undefined property of the content (\<open>example_sparse\<close>) is not copied into the record,
  and the new session's content lacks it. A record whose name is the empty string is taken
  for a record without one, and the new session has no content.
\<close>

theorem round_trip_counterexample:
  "fst (authenticate example_registry (JStr ''pw'') good_credentials
          (create (store_lock empty_store))) = Resolved ()
   \<and> content (new_session example_registry (store (snd (authenticate example_registry
         (JStr ''pw'') good_credentials (create (store_lock empty_store)))))) = None
   \<and> fst (authenticate example_registry (JStr ''clash'') JNull (create empty_store)) = Resolved ()
   \<and> authenticatorFactory (new_session example_registry (store (snd (authenticate
         example_registry (JStr ''clash'') JNull (create empty_store))))) = JStr ''fb''
   \<and> fst (authenticate example_registry (JStr ''sparse'') JNull (create empty_store)) = Resolved ()
   \<and> content (new_session example_registry (store (snd (authenticate example_registry
         (JStr ''sparse'') JNull (create empty_store))))) = Some [''token'' \<mapsto> JStr ''T'']
   \<and> fst (authenticate [[] \<mapsto> example_pw] (JStr []) good_credentials (create empty_store))
       = Resolved ()
   \<and> content (new_session [[] \<mapsto> example_pw] (store (snd (authenticate [[] \<mapsto> example_pw]
         (JStr []) good_credentials (create empty_store))))) = None"
  apply (intro conjI)
         apply (simp_all add: session_defs store_defs example_defs Let_def)
  apply (auto simp: fun_eq_iff)
  done

subsection \<open>Restoring at creation\<close>

lemma init_restore_rejected_raises:
  "init_restore_rejected then_callback_receiver s = (Some TypeError, s)"
  by (simp add: init_restore_rejected_def then_callback_receiver_def)

lemma init_restore_rejected_leaves_store:
  assumes "truthy (get_property (data st) factory_key)"
    and "container_lookup reg (get_property (data st) factory_key) = Some (name, a)"
    and "auth_restore a (delete_property (data st) factory_key) = Rejected E"
  shows "init reg (create st) = (None, create (st\<lparr>calls := calls st @ [On, Restore]\<rparr>))"
  using assms
  by (simp add: init_def bindToStoreEvents_def store_defs create_def Let_def
      in_then_callback_def init_restore_rejected_raises)

text \<open>
  C6, what the code does. The store holds the record of a session of the base
  authenticator and its lock is free; the base authenticator rejects the restore. The
  rejection callback raises at \<^verbatim>\<open>this.store\<close> (\<open>init_restore_rejected_raises\<close>), so
  \<open>init\<close> raises nothing itself, and the store is left as it was: the only calls it
  received are the subscription and \<open>restore\<close>, and it still holds the record.
\<close>

theorem boot_restore_rejected_store_not_cleared:
  "\<not> locked stale_store
   \<and> auth_restore Base (delete_property (data stale_store) factory_key)
       = Rejected (Value JUndefined)
   \<and> fst (init example_registry (create stale_store)) = None
   \<and> data (store (new_session example_registry stale_store)) = data stale_store
   \<and> calls (store (new_session example_registry stale_store)) = [On, Restore]"
  by (simp add: session_defs store_defs example_defs stale_store_def Let_def Base_def
      Base_rejection_reasons)

subsection \<open>Listeners on authenticators\<close>

text \<open>
  C3, what the code does. After \<open>authenticate\<close> has resolved with \<open>example_pw\<close> and
  then with \<open>example_fb\<close>, the session's factory is the second, one listener is bound on
  the second, and the listener bound on the first is still there.
\<close>

theorem listener_left_on_previous_authenticator:
  "authenticatorFactory (run example_registry (new_session example_registry empty_store)
      [Authenticate (JStr ''pw'') good_credentials, Authenticate (JStr ''fb'') JNull]) = JStr ''fb''
   \<and> listeners (run example_registry (new_session example_registry empty_store)
      [Authenticate (JStr ''pw'') good_credentials, Authenticate (JStr ''fb'') JNull]) ''fb'' = 1
   \<and> listeners (run example_registry (new_session example_registry empty_store)
      [Authenticate (JStr ''pw'') good_credentials, Authenticate (JStr ''fb'') JNull]) ''pw'' = 1"
  by (simp add: session_defs store_defs example_defs Let_def)

text \<open>
  The listener left behind is live: when the first authenticator then triggers its event,
  its content becomes the content of the session of the second.
\<close>

lemma previous_authenticator_overwrites_content:
  "authenticatorFactory (run example_registry (new_session example_registry empty_store)
      [Authenticate (JStr ''pw'') good_credentials, Authenticate (JStr ''fb'') JNull,
       Authenticator_updated ''pw'' [''token'' \<mapsto> JStr ''T2'']]) = JStr ''fb''
   \<and> content (run example_registry (new_session example_registry empty_store)
      [Authenticate (JStr ''pw'') good_credentials, Authenticate (JStr ''fb'') JNull,
       Authenticator_updated ''pw'' [''token'' \<mapsto> JStr ''T2'']]) = Some [''token'' \<mapsto> JStr ''T2'']"
  by (simp add: session_defs store_defs example_defs Let_def)

text \<open>What the operations leave behind: the session as it was, cleared, or set up.\<close>

lemma authenticate_cases:
  "snd (authenticate reg factory options s) = s
   \<or> snd (authenticate reg factory options s) = clear s
   \<or> (\<exists>name a c. container_lookup reg factory = Some (name, a)
         \<and> snd (authenticate reg factory options s) = snd (setup_session reg factory c s))"
proof (cases "container_lookup reg factory")
  case None
  then show ?thesis by (simp add: authenticate_def)
next
  case (Some found)
  obtain name a where found: "found = (name, a)"
    by (cases found)
  show ?thesis
    using Some found
    by (cases "auth_authenticate a options") (auto simp: authenticate_def setup_session_found)
qed

lemma invalidate_cases:
  "snd (invalidate reg s) = s
   \<or> (\<exists>name. snd (invalidate reg s) = clear (s\<lparr>listeners := (listeners s)(name := 0)\<rparr>))"
proof (cases "container_lookup reg (authenticatorFactory s)")
  case None
  then show ?thesis by (simp add: invalidate_def)
next
  case (Some found)
  obtain name a where found: "found = (name, a)"
    by (cases found)
  show ?thesis
    using Some found
    by (cases "auth_invalidate a (content s)") (auto simp: invalidate_def)
qed

lemma store_session_updated_cases:
  "snd (store_session_updated reg notified s) = s
   \<or> snd (store_session_updated reg notified s) = clear s
   \<or> (\<exists>name a c. container_lookup reg (get_property notified factory_key) = Some (name, a)
         \<and> snd (store_session_updated reg notified s)
             = snd (setup_session reg (get_property notified factory_key) c s))"
proof (cases "truthy (get_property notified factory_key)")
  case False
  then show ?thesis by (simp add: store_session_updated_def)
next
  case True
  show ?thesis
  proof (cases "container_lookup reg (get_property notified factory_key)")
    case None
    with True show ?thesis by (simp add: store_session_updated_def)
  next
    case (Some found)
    obtain name a where found: "found = (name, a)"
      by (cases found)
    show ?thesis
      using True Some found
      by (cases "auth_restore a (delete_property notified factory_key)")
        (auto simp: store_session_updated_def in_then_callback_def)
  qed
qed

lemma init_cases:
  "(\<exists>st'. snd (init reg (create st)) = create st')
   \<or> (\<exists>name a c st'. container_lookup reg (get_property (data st) factory_key) = Some (name, a)
         \<and> snd (init reg (create st))
             = snd (setup_session reg (get_property (data st) factory_key) c (create st')))"
proof (cases "truthy (get_property (data st) factory_key)")
  case False
  then show ?thesis
    by (auto simp: init_def Let_def bindToStoreEvents_def store_defs create_def)
next
  case True
  show ?thesis
  proof (cases "container_lookup reg (get_property (data st) factory_key)")
    case None
    with True show ?thesis
      by (auto simp: init_def Let_def bindToStoreEvents_def store_defs create_def)
  next
    case (Some found)
    obtain name a where found: "found = (name, a)"
      by (cases found)
    show ?thesis
    proof (cases "auth_restore a (delete_property (data st) factory_key)")
      case (Resolved c)
      with True Some found
      have "snd (init reg (create st)) =
              snd (setup_session reg (get_property (data st) factory_key) c
                     (create (st\<lparr>calls := calls st @ [On, Restore]\<rparr>)))"
        by (simp add: init_def Let_def bindToStoreEvents_def store_defs create_def
            in_then_callback_def)
      with Some found show ?thesis by blast
    next
      case (Rejected r)
      with True Some found show ?thesis
        by (auto simp: init_restore_rejected_leaves_store)
    next
      case Pending
      with True Some found show ?thesis
        by (auto simp: init_def Let_def bindToStoreEvents_def store_defs create_def)
    qed
  qed
qed

text \<open>
  Whatever happens, no authenticator instance ever carries more than one of the session's
  listeners.
\<close>

lemma listeners_setup_session:
  "\<forall>n. listeners s n \<le> 1 \<Longrightarrow> \<forall>n. listeners (snd (setup_session reg factory c s)) n \<le> 1"
  by (cases "container_lookup reg factory")
    (auto simp: setup_session_found setup_session_not_found)

lemma listeners_run_listeners:
  "\<forall>n. listeners s n \<le> 1 \<Longrightarrow> \<forall>n. listeners (snd (run_listeners k reg c s)) n \<le> 1"
proof (induction k arbitrary: s)
  case 0
  then show ?case by simp
next
  case (Suc k)
  have *: "\<forall>n. listeners (snd (setup_session reg (authenticatorFactory s) c s)) n \<le> 1"
    using Suc.prems by (rule listeners_setup_session)
  show ?case
  proof (cases "setup_session reg (authenticatorFactory s) c s")
    case (Pair e s')
    with * Suc.IH [of s'] show ?thesis
      by (cases e) (simp_all add: authenticator_session_updated_def)
  qed
qed

lemma listeners_step:
  assumes "\<forall>n. listeners s n \<le> 1"
  shows "\<forall>n. listeners (step reg s ev) n \<le> 1"
proof (cases ev)
  case (Authenticate factory options)
  with assms authenticate_cases [of reg factory options s]
    listeners_setup_session [OF assms, of reg factory]
  show ?thesis
    by (auto simp: clear_fields)
next
  case Invalidate
  with assms invalidate_cases [of reg s] show ?thesis
    by (auto simp: clear_fields)
next
  case (Store_updated notified)
  with assms store_session_updated_cases [of reg notified s]
    listeners_setup_session [OF assms, of reg "get_property notified factory_key"]
  show ?thesis
    by (auto simp: clear_fields)
next
  case (Authenticator_updated name c)
  with listeners_run_listeners [OF assms] show ?thesis
    by (simp add: authenticator_trigger_def)
qed

lemma at_most_one_listener_per_authenticator:
  "\<forall>n. listeners s n \<le> 1 \<Longrightarrow> \<forall>n. listeners (run reg s evs) n \<le> 1"
proof (induction evs arbitrary: s)
  case Nil
  then show ?case by (simp add: run_def)
next
  case (Cons ev evs)
  from Cons.IH [OF listeners_step [OF Cons.prems, of reg ev]] show ?case
    by (simp add: run_def)
qed

subsection \<open>The three properties of the session\<close>

lemma container_lookup_non_null:
  "container_lookup reg v \<noteq> None \<Longrightarrow> non_null v"
  by (cases v) (simp_all add: container_lookup_def non_null_def)

lemma consistent_invariant:
  assumes "consistent reg s"
  shows "isAuthenticated s = (non_null (authenticatorFactory s) \<and> content s \<noteq> None)"
proof (cases "isAuthenticated s")
  case True
  with assms have "container_lookup reg (authenticatorFactory s) \<noteq> None"
    and "content s \<noteq> None"
    by (simp_all add: consistent_def)
  with True show ?thesis
    by (simp add: container_lookup_non_null)
next
  case False
  with assms show ?thesis
    by (simp add: consistent_def non_null_def)
qed

lemma consistent_create: "consistent reg (create st)"
  by (simp add: consistent_def create_def)

lemma consistent_clear: "consistent reg (clear s)"
  by (simp add: consistent_def clear_fields)

lemma consistent_setup_session:
  assumes "container_lookup reg factory = Some (name, a)"
  shows "consistent reg (snd (setup_session reg factory c s))"
  using assms by (simp add: consistent_def setup_session_found [OF assms])

lemma consistent_authenticate:
  "consistent reg s \<Longrightarrow> consistent reg (snd (authenticate reg factory options s))"
  using authenticate_cases [of reg factory options s]
  by (auto simp: consistent_clear consistent_setup_session)

lemma consistent_invalidate:
  "consistent reg s \<Longrightarrow> consistent reg (snd (invalidate reg s))"
  using invalidate_cases [of reg s]
  by (auto simp: consistent_clear)

lemma consistent_store_session_updated:
  "consistent reg s \<Longrightarrow> consistent reg (snd (store_session_updated reg notified s))"
  using store_session_updated_cases [of reg notified s]
  by (auto simp: consistent_clear consistent_setup_session)

lemma consistent_run_listeners:
  "consistent reg s \<Longrightarrow> isAuthenticated s \<Longrightarrow> consistent reg (snd (run_listeners n reg c s))"
proof (induction n arbitrary: s)
  case 0
  then show ?case by simp
next
  case (Suc n)
  from Suc.prems obtain name a where
    found: "container_lookup reg (authenticatorFactory s) = Some (name, a)"
    by (auto simp: consistent_def)
  obtain s' where eq: "setup_session reg (authenticatorFactory s) c s = (None, s')"
    by (simp add: setup_session_found [OF found])
  have "consistent reg s'"
    using consistent_setup_session [OF found, of c s] by (simp add: eq)
  moreover have "isAuthenticated s'"
    using eq by (auto simp: setup_session_found [OF found])
  ultimately have "consistent reg (snd (run_listeners n reg c s'))"
    by (rule Suc.IH)
  then show ?case
    by (simp add: authenticator_session_updated_def eq)
qed

lemma consistent_step:
  assumes "consistent reg s"
    and "case ev of Authenticator_updated name c \<Rightarrow> isAuthenticated s | _ \<Rightarrow> True"
  shows "consistent reg (step reg s ev)"
  using assms
  by (cases ev)
    (simp_all add: consistent_authenticate consistent_invalidate
      consistent_store_session_updated authenticator_trigger_def consistent_run_listeners)

lemma consistent_run:
  "consistent reg s \<Longrightarrow> notified_while_authenticated reg s evs \<Longrightarrow>
     consistent reg (run reg s evs)"
proof (induction evs arbitrary: s)
  case Nil
  then show ?case by (simp add: run_def)
next
  case (Cons ev evs)
  from Cons.prems have "consistent reg (step reg s ev)"
    by (simp add: consistent_step)
  with Cons.prems Cons.IH [of "step reg s ev"] show ?case
    by (simp add: run_def)
qed

lemma consistent_new_session: "consistent reg (new_session reg st)"
  using init_cases [of reg st]
  by (auto simp: new_session_def consistent_create consistent_setup_session)

text \<open>
  As long as every notification of an authenticator reaches the session while it is
  authenticated, \<open>isAuthenticated\<close> holds exactly when factory and content are non-null,
  from the creation of the session on.
\<close>

lemma invariant_while_notified_when_authenticated:
  assumes "notified_while_authenticated reg (new_session reg st) evs"
  shows "isAuthenticated (run reg (new_session reg st) evs)
           = (non_null (authenticatorFactory (run reg (new_session reg st) evs))
              \<and> content (run reg (new_session reg st) evs) \<noteq> None)"
  using assms consistent_new_session consistent_run consistent_invariant by blast

text \<open>
  C1, what the code does. \<open>clear\<close> leaves the listener bound, so a notification can reach
  the session after it was cleared. The session is signed in with \<open>example_pw\<close>, the
  store notifies an empty record (the session is cleared), and \<open>example_pw\<close> triggers
  its event: the listener runs \<open>setup_session\<close> with the session's factory, which is
  null by then. The session ends authenticated, with content, and with a null factory.
\<close>

theorem stale_listener_half_sets_session:
  "isAuthenticated (run example_registry (new_session example_registry empty_store)
      [Authenticate (JStr ''pw'') good_credentials, Store_updated Map.empty,
       Authenticator_updated ''pw'' [''token'' \<mapsto> JStr ''T2'']])
   \<and> authenticatorFactory (run example_registry (new_session example_registry empty_store)
      [Authenticate (JStr ''pw'') good_credentials, Store_updated Map.empty,
       Authenticator_updated ''pw'' [''token'' \<mapsto> JStr ''T2'']]) = JNull
   \<and> content (run example_registry (new_session example_registry empty_store)
      [Authenticate (JStr ''pw'') good_credentials, Store_updated Map.empty,
       Authenticator_updated ''pw'' [''token'' \<mapsto> JStr ''T2'']]) = Some [''token'' \<mapsto> JStr ''T2'']"
  by (simp add: session_defs store_defs example_defs Let_def)

end
